theory Spec2Isabelle
  imports Main "HOL-Library.FSet"
begin

section \<open>The naming engine of quicktype (Naming.ts, Language/CSharp.ts)\<close>

text \<open>
  The objects of the source (namespaces, nameds, naming functions) are compared by
  reference: \<^verbatim>\<open>equals(other) { return this === other; }\<close>. They are therefore kept in
  a store and named by references; every collection of the source holds references.
  An \<^verbatim>\<open>OrderedSet\<close> is a list without duplicates in insertion order, an unordered
  \<^verbatim>\<open>Set\<close> of references is the list of its elements in iteration order, a
  \<^verbatim>\<open>Set<string>\<close> is a finite set, and a \<^verbatim>\<open>Map\<close> is a partial function.
\<close>

subsection \<open>Data model\<close>

type_synonym NamespaceRef = nat
type_synonym NamedRef = nat

text \<open>
  Everything the source throws. The first four are the thrown strings of Naming.ts and
  CSharp.ts; \<open>TypeError\<close> is what JavaScript throws when a method is called on
  \<^verbatim>\<open>undefined\<close> or \<^verbatim>\<open>null\<close>.
\<close>

datatype error =
    NamedAssignedTwice
  | AssignedNameConflicts
  | WrongNumberOfNames
  | NumberOfNamesLessThanOne
  | TypeError

text \<open>
  \<^verbatim>\<open>NamingFunction\<close> is abstract; \<^verbatim>\<open>CountingNamingFunction\<close> is its one subclass in
  the repository (all its instances are equal). Any other naming function is an object
  of the store, compared by its reference.
\<close>

datatype NamingFunction = CountingNamingFunction | OtherNamingFunction nat

record Namespace =
  ns_name :: string
  parent :: "NamespaceRef option"
  children :: "NamespaceRef list"
  forbidden :: "NamespaceRef list"
  members :: "NamedRef list"

text \<open>
  The three subclasses of \<^verbatim>\<open>Named\<close> with the arguments of their constructors. The last
  argument of a \<^verbatim>\<open>DependencyNamed\<close> is its \<^verbatim>\<open>_proposeName\<close>, a pure function of the
  names of the dependencies, where a dependency without a name comes as \<open>None\<close>.
\<close>

datatype Named =
    FixedNamed NamespaceRef string
  | SimpleNamed NamespaceRef string NamingFunction string
  | DependencyNamed NamespaceRef string NamingFunction "NamedRef list" "string option list \<Rightarrow> string"

fun namespace :: "Named \<Rightarrow> NamespaceRef" where
  "namespace (FixedNamed ns nm) = ns"
| "namespace (SimpleNamed ns nm nf proposed) = ns"
| "namespace (DependencyNamed ns nm nf deps propose) = ns"

fun name :: "Named \<Rightarrow> string" where
  "name (FixedNamed ns nm) = nm"
| "name (SimpleNamed ns nm nf proposed) = nm"
| "name (DependencyNamed ns nm nf deps propose) = nm"

text \<open>\<^verbatim>\<open>namingFunction\<close> is \<^verbatim>\<open>null\<close> exactly for a \<^verbatim>\<open>FixedNamed\<close> (line 121).\<close>

fun namingFunction :: "Named \<Rightarrow> NamingFunction option" where
  "namingFunction (FixedNamed ns nm) = None"
| "namingFunction (SimpleNamed ns nm nf proposed) = Some nf"
| "namingFunction (DependencyNamed ns nm nf deps propose) = Some nf"

fun dependencies :: "Named \<Rightarrow> NamedRef list" where
  "dependencies (FixedNamed ns nm) = []"
| "dependencies (SimpleNamed ns nm nf proposed) = []"
| "dependencies (DependencyNamed ns nm nf deps propose) = deps"

definition isFixed :: "Named \<Rightarrow> bool" where
  "isFixed named = (namingFunction named = None)"

text \<open>
  \<^verbatim>\<open>proposeName(names)\<close>. The argument is \<open>None\<close> for the \<^verbatim>\<open>null\<close> that the fixed
  pass hands over (line 269). A \<^verbatim>\<open>DependencyNamed\<close> reads \<^verbatim>\<open>names.get(n)\<close> for each
  dependency, which throws on \<^verbatim>\<open>null\<close> as soon as there is a dependency and yields
  \<^verbatim>\<open>undefined\<close> (\<open>None\<close>) for a dependency without a name.
\<close>

fun proposeName :: "Named \<Rightarrow> (NamedRef \<rightharpoonup> string) option \<Rightarrow> error + string" where
  "proposeName (FixedNamed ns nm) names = Inr nm"
| "proposeName (SimpleNamed ns nm nf proposed) names = Inr proposed"
| "proposeName (DependencyNamed ns nm nf deps propose) None =
     (if deps = [] then Inr (propose []) else Inl TypeError)"
| "proposeName (DependencyNamed ns nm nf deps propose) (Some names) =
     Inr (propose (map names deps))"

text \<open>
  The store: the namespace and the named behind each reference, and the \<^verbatim>\<open>name\<close>
  method of every naming function that is not the counting one.
\<close>

record Heap =
  namespaceAt :: "NamespaceRef \<Rightarrow> Namespace"
  namedAt :: "NamedRef \<Rightarrow> Named"
  otherName :: "nat \<Rightarrow> string \<Rightarrow> string fset \<Rightarrow> nat \<Rightarrow> error + string list"

subsection \<open>Ordered sets\<close>

text \<open>The elements of a sequence as an \<^verbatim>\<open>OrderedSet\<close>: the first occurrence of each stays.\<close>

definition toOrderedSet :: "'a list \<Rightarrow> 'a list" where
  "toOrderedSet xs = rev (remdups (rev xs))"

text \<open>\<^verbatim>\<open>orderedSetUnion\<close> (lines 251-256).\<close>

fun orderedSetUnion :: "'a list list \<Rightarrow> 'a list" where
  "orderedSetUnion [] = []"
| "orderedSetUnion [s] = s"
| "orderedSetUnion (s # rest) = toOrderedSet (s @ concat rest)"

text \<open>
  \<^verbatim>\<open>groupBy\<close> of an ordered collection: the groups in the order in which their keys
  first occur, each group in the order of the collection.
\<close>

fun groupBy :: "('a \<Rightarrow> 'k) \<Rightarrow> 'a list \<Rightarrow> ('k \<times> 'a list) list" where
  "groupBy f [] = []"
| "groupBy f (x # xs) =
     (f x, x # filter (\<lambda>y. f y = f x) xs) # groupBy f (filter (\<lambda>y. f y \<noteq> f x) xs)"

subsection \<open>CountingNamingFunction (CSharp.ts, lines 44-80)\<close>

text \<open>
  \<^verbatim>\<open>numberOfNames\<close> is the size of a collection, a natural number.
  \<^verbatim>\<open>proposedName + underscores + i\<close> appends the decimal digits of the number \<open>i\<close>.
  The numbers are indices into a collection, far below the range where JavaScript stops
  printing a number as its digits.
\<close>

fun showNat :: "nat \<Rightarrow> string" where
  "showNat n = (if n < 10 then [''0123456789'' ! n]
                else showNat (n div 10) @ [''0123456789'' ! (n mod 10)])"

declare showNat.simps [simp del]

text \<open>The \<^verbatim>\<open>names\<close> that one round of the loop builds (lines 57-64).\<close>

definition candidateNames :: "string \<Rightarrow> string \<Rightarrow> nat \<Rightarrow> string list" where
  "candidateNames proposedName underscores numberOfNames =
     (if numberOfNames = 1 then toOrderedSet [proposedName @ underscores]
      else toOrderedSet (map (\<lambda>i. proposedName @ underscores @ showNat i) [0..<numberOfNames]))"

lemma set_toOrderedSet: "set (toOrderedSet xs) = set xs"
  by (simp add: toOrderedSet_def)

lemma toOrderedSet_distinct: "distinct xs \<Longrightarrow> toOrderedSet xs = xs"
  by (simp add: toOrderedSet_def distinct_remdups_id)

lemma candidateNames_length:
  "x \<in> set (candidateNames p u n) \<Longrightarrow> length u \<le> length x"
  by (auto simp: candidateNames_def set_toOrderedSet split: if_splits)

lemma fset_length_le_Max:
  "x |\<in>| F \<Longrightarrow> length x \<le> Max (insert 0 (length ` fset F))"
  by (rule Max_ge) auto

text \<open>
  The \<^verbatim>\<open>for (;;)\<close> of lines 56-70. It ends because every name of a round is at least
  as long as \<^verbatim>\<open>underscores\<close>, and the forbidden set is finite.
\<close>

function countingLoop :: "string \<Rightarrow> string fset \<Rightarrow> nat \<Rightarrow> string \<Rightarrow> string list" where
  "countingLoop proposedName forbiddenNames numberOfNames underscores =
     (let names = candidateNames proposedName underscores numberOfNames
      in if list_ex (\<lambda>n. n |\<in>| forbiddenNames) names
         then countingLoop proposedName forbiddenNames numberOfNames (underscores @ ''_'')
         else names)"
  by pat_completeness auto
termination
proof (relation "measure (\<lambda>(p, F, n, u). Suc (Max (insert 0 (length ` fset F))) - length u)")
  show "wf (measure (\<lambda>(p, F, n, u). Suc (Max (insert 0 (length ` fset F))) - length u))"
    by simp
next
  fix proposedName :: string and forbiddenNames :: "string fset" and numberOfNames :: nat
    and underscores :: string and x :: "string list"
  assume x: "x = candidateNames proposedName underscores numberOfNames"
    and hit: "list_ex (\<lambda>n. n |\<in>| forbiddenNames) x"
  from hit obtain y where y: "y \<in> set x" "y |\<in>| forbiddenNames"
    by (auto simp: list_ex_iff)
  have "length underscores \<le> length y"
    using y(1) x candidateNames_length by blast
  also have "\<dots> \<le> Max (insert 0 (length ` fset forbiddenNames))"
    using y(2) by (rule fset_length_le_Max)
  finally show "((proposedName, forbiddenNames, numberOfNames, underscores @ ''_''),
                 (proposedName, forbiddenNames, numberOfNames, underscores))
                \<in> measure (\<lambda>(p, F, n, u). Suc (Max (insert 0 (length ` fset F))) - length u)"
    by simp
qed

declare countingLoop.simps [simp del]

definition CountingNamingFunction_name :: "string \<Rightarrow> string fset \<Rightarrow> nat \<Rightarrow> error + string list" where
  "CountingNamingFunction_name proposedName forbiddenNames numberOfNames =
     (if numberOfNames < 1 then Inl NumberOfNamesLessThanOne
      else Inr (countingLoop proposedName forbiddenNames numberOfNames ''''))"

subsection \<open>allNamespacesRecursively (Naming.ts, lines 195-201)\<close>

primrec mapM :: "('a \<Rightarrow> 'b option) \<Rightarrow> 'a list \<Rightarrow> 'b list option" where
  "mapM f [] = Some []"
| "mapM f (x # xs) = Option.bind (f x) (\<lambda>y. Option.bind (mapM f xs) (\<lambda>ys. Some (y # ys)))"

lemma mapM_mono [partial_function_mono]:
  assumes "\<And>x. mono_option (\<lambda>f. g f x)"
  shows "mono_option (\<lambda>f. mapM (g f) xs)"
  by (induction xs) (auto intro!: partial_function_mono assms)

text \<open>
  The recursion follows the \<^verbatim>\<open>children\<close> of each namespace. The constructor of
  \<^verbatim>\<open>Namespace\<close> only ever adds a new namespace to its parent, so the children of real
  objects form a finite forest; on a store whose children run in a circle the recursion
  of the source never returns, and the value here is \<open>None\<close>.
\<close>

partial_function (option) allNamespacesRecursively ::
  "Heap \<Rightarrow> NamespaceRef list \<Rightarrow> NamespaceRef list option" where
  "allNamespacesRecursively h namespaces =
     Option.bind
       (mapM (\<lambda>ns. allNamespacesRecursively h (children (namespaceAt h ns))) namespaces)
       (\<lambda>subs. Some (toOrderedSet (namespaces @ concat subs)))"

subsection \<open>NamingContext (Naming.ts, lines 203-249)\<close>

record NamingContext =
  names :: "NamedRef \<rightharpoonup> string"
  namedsForName :: "string \<rightharpoonup> NamedRef list"
  namespaces :: "NamespaceRef list"

definition newNamingContext :: "Heap \<Rightarrow> NamespaceRef list \<Rightarrow> NamingContext option" where
  "newNamingContext h rootNamespaces =
     map_option (\<lambda>all. \<lparr>names = Map.empty, namedsForName = Map.empty, namespaces = all\<rparr>)
       (allNamespacesRecursively h rootNamespaces)"

definition isReadyToBeNamed :: "Heap \<Rightarrow> NamingContext \<Rightarrow> NamedRef \<Rightarrow> bool" where
  "isReadyToBeNamed h ctx named =
     (if names ctx named \<noteq> None then False
      else list_all (\<lambda>n. names ctx n \<noteq> None) (dependencies (namedAt h named)))"

definition isFullyNamed :: "Heap \<Rightarrow> NamingContext \<Rightarrow> NamespaceRef \<Rightarrow> bool" where
  "isFullyNamed h ctx ns = list_all (\<lambda>n. names ctx n \<noteq> None) (members (namespaceAt h ns))"

definition isConflicting :: "Heap \<Rightarrow> NamingContext \<Rightarrow> NamedRef \<Rightarrow> string \<Rightarrow> bool" where
  "isConflicting h ctx named proposed =
     (case namedsForName ctx proposed of
        None \<Rightarrow> False
      | Some holders \<Rightarrow>
          list_ex (\<lambda>n. namespace (namedAt h named) = namespace (namedAt h n)
                       \<or> namespace (namedAt h n)
                           \<in> set (forbidden (namespaceAt h (namespace (namedAt h named)))))
            holders)"

text \<open>
  \<^verbatim>\<open>assign\<close> (lines 236-248). The context is an object that the method changes in place,
  also when it throws afterwards, so the result is the exception (if any) together with
  the context as the call leaves it.

  \<^verbatim>\<open>names\<close> is replaced by the map that \<^verbatim>\<open>set\<close> returns (line 243). The maps and sets of
  Immutable.js never change: \<^verbatim>\<open>this.namedsForName.set(name, Set())\<close> (line 245) and
  \<^verbatim>\<open>.add(named)\<close> (line 247) return new collections, which the code drops, so
  \<^verbatim>\<open>namedsForName\<close> stays as it was. Line 247 then calls \<^verbatim>\<open>add\<close> on what
  \<^verbatim>\<open>this.namedsForName.get(name)\<close> returns, which is \<^verbatim>\<open>undefined\<close> when the map has no
  entry for the name: a \<open>TypeError\<close>.
\<close>

definition assign :: "Heap \<Rightarrow> NamingContext \<Rightarrow> NamedRef \<Rightarrow> string \<Rightarrow> error option \<times> NamingContext" where
  "assign h ctx named nm =
     (if names ctx named \<noteq> None then (Some NamedAssignedTwice, ctx)
      else if isConflicting h ctx named nm then (Some AssignedNameConflicts, ctx)
      else
        (let ctx' = ctx\<lparr>names := (names ctx)(named \<mapsto> nm)\<rparr>
         in case namedsForName ctx' nm of
              None \<Rightarrow> (Some TypeError, ctx')
            | Some holders \<Rightarrow> (None, ctx')))"

subsection \<open>assignNames (Naming.ts, lines 259-327)\<close>

text \<open>Lines 265-267: the fixed members of all namespaces, as an ordered set.\<close>

definition fixedNames :: "Heap \<Rightarrow> NamingContext \<Rightarrow> NamedRef list" where
  "fixedNames h ctx =
     toOrderedSet
       (concat (map (\<lambda>ns. filter (\<lambda>n. isFixed (namedAt h n)) (members (namespaceAt h ns)))
                  (namespaces ctx)))"

text \<open>Lines 268-271: the first exception ends the pass.\<close>

fun assignFixed :: "Heap \<Rightarrow> NamingContext \<Rightarrow> NamedRef list \<Rightarrow> error + NamingContext" where
  "assignFixed h ctx [] = Inr ctx"
| "assignFixed h ctx (n # rest) =
     (case proposeName (namedAt h n) None of
        Inl e \<Rightarrow> Inl e
      | Inr nm \<Rightarrow>
          (case assign h ctx n nm of
             (Some e, ctx') \<Rightarrow> Inl e
           | (None, ctx') \<Rightarrow> assignFixed h ctx' rest))"

text \<open>
  Lines 279-282. \<^verbatim>\<open>unfinishedNamespaces\<close> keeps the namespaces for which
  \<^verbatim>\<open>ctx.isFullyNamed\<close> holds; the \<^verbatim>\<open>forbidden\<close> sets are not read here.
\<close>

definition unfinishedNamespaces :: "Heap \<Rightarrow> NamingContext \<Rightarrow> NamespaceRef list" where
  "unfinishedNamespaces h ctx = filter (isFullyNamed h ctx) (namespaces ctx)"

definition readyNamespace :: "Heap \<Rightarrow> NamingContext \<Rightarrow> NamespaceRef option" where
  "readyNamespace h ctx =
     find (\<lambda>ns. list_ex (isReadyToBeNamed h ctx) (members (namespaceAt h ns)))
       (unfinishedNamespaces h ctx)"

text \<open>
  Lines 289-294. \<^verbatim>\<open>ctx.names.get(n)\<close> is \<^verbatim>\<open>undefined\<close> for a member without a name;
  \<^verbatim>\<open>undefined\<close> is no string, so the strings of the set are the names that are there.
  The iteration order of the unordered \<^verbatim>\<open>forbidden\<close> set is lost in \<^verbatim>\<open>toSet\<close>.
\<close>

definition forbiddenNameds :: "Heap \<Rightarrow> NamespaceRef \<Rightarrow> NamedRef list" where
  "forbiddenNameds h ns =
     orderedSetUnion
       (toOrderedSet (map (\<lambda>f. members (namespaceAt h f)) (forbidden (namespaceAt h ns))))"

definition forbiddenNames :: "Heap \<Rightarrow> NamingContext \<Rightarrow> NamespaceRef \<Rightarrow> string fset" where
  "forbiddenNames h ctx ns =
     fset_of_list
       (concat (map (\<lambda>n. case names ctx n of None \<Rightarrow> [] | Some s \<Rightarrow> [s]) (forbiddenNameds h ns)))"

text \<open>
  \<^verbatim>\<open>namingFunction.name(proposed, forbiddenNames, numNames)\<close> (line 309). The receiver is
  \<^verbatim>\<open>null\<close> for a group of fixed nameds. The result is an \<^verbatim>\<open>OrderedSet\<close>.
\<close>

definition callName ::
  "Heap \<Rightarrow> NamingFunction option \<Rightarrow> string \<Rightarrow> string fset \<Rightarrow> nat \<Rightarrow> error + string list" where
  "callName h nf proposed forbidden_names numNames =
     (case nf of
        None \<Rightarrow> Inl TypeError
      | Some CountingNamingFunction \<Rightarrow> CountingNamingFunction_name proposed forbidden_names numNames
      | Some (OtherNamingFunction k) \<Rightarrow>
          (case otherName h k proposed forbidden_names numNames of
             Inl e \<Rightarrow> Inl e
           | Inr ns \<Rightarrow> Inr (toOrderedSet ns)))"

text \<open>Lines 319-323.\<close>

fun assignEach :: "Heap \<Rightarrow> NamingContext \<Rightarrow> (NamedRef \<times> string) list \<Rightarrow> error + NamingContext" where
  "assignEach h ctx [] = Inr ctx"
| "assignEach h ctx ((named, nm) # rest) =
     (case assign h ctx named nm of
        (Some e, ctx') \<Rightarrow> Inl e
      | (None, ctx') \<Rightarrow> assignEach h ctx' rest)"

text \<open>Lines 306-323: one set of nameds with the same naming function and proposed name.\<close>

definition nameBatch ::
  "Heap \<Rightarrow> NamingContext \<Rightarrow> NamingFunction option \<Rightarrow> string fset \<Rightarrow> string \<Rightarrow> NamedRef list
     \<Rightarrow> error + NamingContext" where
  "nameBatch h ctx nf forbidden_names proposed nameds =
     (let numNames = length nameds
      in case callName h nf proposed forbidden_names numNames of
           Inl e \<Rightarrow> Inl e
         | Inr nms \<Rightarrow>
             if length nms \<noteq> numNames then Inl WrongNumberOfNames
             else assignEach h ctx (zip nameds nms))"

fun forEachProposed ::
  "Heap \<Rightarrow> NamingContext \<Rightarrow> NamingFunction option \<Rightarrow> string fset \<Rightarrow> (string \<times> NamedRef list) list
     \<Rightarrow> error + NamingContext" where
  "forEachProposed h ctx nf forbidden_names [] = Inr ctx"
| "forEachProposed h ctx nf forbidden_names ((proposed, nameds) # rest) =
     (case nameBatch h ctx nf forbidden_names proposed nameds of
        Inl e \<Rightarrow> Inl e
      | Inr ctx' \<Rightarrow> forEachProposed h ctx' nf forbidden_names rest)"

text \<open>
  Line 304: \<^verbatim>\<open>nameds.groupBy(n => n.proposeName(ctx.names))\<close>, with the names of the
  context as they are when this group is reached. \<open>proposals\<close> calls \<^verbatim>\<open>proposeName\<close>
  on each named in turn and stops at the first exception.
\<close>

fun proposals :: "Heap \<Rightarrow> NamingContext \<Rightarrow> NamedRef list \<Rightarrow> error + (string \<times> NamedRef) list" where
  "proposals h ctx [] = Inr []"
| "proposals h ctx (n # rest) =
     (case proposeName (namedAt h n) (Some (names ctx)) of
        Inl e \<Rightarrow> Inl e
      | Inr p \<Rightarrow>
          (case proposals h ctx rest of
             Inl e \<Rightarrow> Inl e
           | Inr ps \<Rightarrow> Inr ((p, n) # ps)))"

definition byProposed :: "(string \<times> NamedRef) list \<Rightarrow> (string \<times> NamedRef list) list" where
  "byProposed ps = map (\<lambda>(proposed, group). (proposed, map snd group)) (groupBy fst ps)"

fun forEachNamingFunction ::
  "Heap \<Rightarrow> NamingContext \<Rightarrow> string fset \<Rightarrow> (NamingFunction option \<times> NamedRef list) list
     \<Rightarrow> error + NamingContext" where
  "forEachNamingFunction h ctx forbidden_names [] = Inr ctx"
| "forEachNamingFunction h ctx forbidden_names ((nf, nameds) # rest) =
     (case proposals h ctx nameds of
        Inl e \<Rightarrow> Inl e
      | Inr ps \<Rightarrow>
          (case forEachProposed h ctx nf forbidden_names (byProposed ps) of
             Inl e \<Rightarrow> Inl e
           | Inr ctx' \<Rightarrow> forEachNamingFunction h ctx' forbidden_names rest))"

text \<open>Lines 289-325: the body of the loop for the namespace that was found.\<close>

definition nameNamespace :: "Heap \<Rightarrow> NamingContext \<Rightarrow> NamespaceRef \<Rightarrow> error + NamingContext" where
  "nameNamespace h ctx ns =
     (let forbidden_names = forbiddenNames h ctx ns;
          readyNames = filter (isReadyToBeNamed h ctx) (members (namespaceAt h ns));
          byNamingFunction = groupBy (\<lambda>n. namingFunction (namedAt h n)) readyNames
      in forEachNamingFunction h ctx forbidden_names byNamingFunction)"

text \<open>The \<^verbatim>\<open>for (;;)\<close> of lines 273-326.\<close>

partial_function (option) nameLoop ::
  "Heap \<Rightarrow> NamingContext \<Rightarrow> (error + (NamedRef \<rightharpoonup> string)) option" where
  "nameLoop h ctx =
     (case readyNamespace h ctx of
        None \<Rightarrow> Some (Inr (names ctx))
      | Some ns \<Rightarrow>
          (case nameNamespace h ctx ns of
             Inl e \<Rightarrow> Some (Inl e)
           | Inr ctx' \<Rightarrow> nameLoop h ctx'))"

text \<open>
  The result is \<open>None\<close> when the source does not return, \<open>Some (Inl e)\<close> when it throws
  \<open>e\<close>, and \<open>Some (Inr names)\<close> when it returns the map \<open>names\<close>.
\<close>

definition assignNames ::
  "Heap \<Rightarrow> NamespaceRef list \<Rightarrow> (error + (NamedRef \<rightharpoonup> string)) option" where
  "assignNames h rootNamespaces =
     (case newNamingContext h rootNamespaces of
        None \<Rightarrow> None
      | Some ctx \<Rightarrow>
          (case assignFixed h ctx (fixedNames h ctx) of
             Inl e \<Rightarrow> Some (Inl e)
           | Inr ctx' \<Rightarrow> nameLoop h ctx'))"

subsection \<open>Sequences of calls\<close>

text \<open>
  A sequence of calls of \<^verbatim>\<open>assign\<close> on one context, each on the context as the call
  before it left it. A call that throws has still changed the object.
\<close>

fun assignCalls :: "Heap \<Rightarrow> NamingContext \<Rightarrow> (NamedRef \<times> string) list \<Rightarrow> NamingContext" where
  "assignCalls h ctx [] = ctx"
| "assignCalls h ctx ((named, nm) # rest) = assignCalls h (snd (assign h ctx named nm)) rest"

section \<open>Example forests\<close>

definition emptyNamespace :: Namespace where
  "emptyNamespace = \<lparr>ns_name = ''unused'', parent = None, children = [], forbidden = [], members = []\<rparr>"

definition noOtherName :: "nat \<Rightarrow> string \<Rightarrow> string fset \<Rightarrow> nat \<Rightarrow> error + string list" where
  "noOtherName k proposed forbidden_names numNames = Inr []"

definition appendValue :: "string option list \<Rightarrow> string" where
  "appendValue dependencyNames = concat (map (case_option [] id) dependencyNames) @ ''Value''"

text \<open>
  A root namespace with one \<^verbatim>\<open>SimpleNamed\<close> that proposes \<^verbatim>\<open>Foo\<close>, and two child
  namespaces, which both forbid the root: one with a \<^verbatim>\<open>DependencyNamed\<close> that depends on
  the \<^verbatim>\<open>SimpleNamed\<close>, and one without members.
\<close>

definition simpleForest :: Heap where
  "simpleForest =
     \<lparr>namespaceAt = (\<lambda>r.
        if r = 0 then \<lparr>ns_name = ''global'', parent = None, children = [1, 2], forbidden = [],
                       members = [0]\<rparr>
        else if r = 1 then \<lparr>ns_name = ''inner'', parent = Some 0, children = [], forbidden = [0],
                             members = [1]\<rparr>
        else if r = 2 then \<lparr>ns_name = ''empty'', parent = Some 0, children = [], forbidden = [0],
                             members = []\<rparr>
        else emptyNamespace),
      namedAt = (\<lambda>r.
        if r = 1 then DependencyNamed 1 ''Property'' CountingNamingFunction [0] appendValue
        else SimpleNamed 0 ''TopLevel'' CountingNamingFunction ''Foo''),
      otherName = noOtherName\<rparr>"

text \<open>
  The same forest with other display names and parent links, and with the forbidden set of
  the child in another iteration order.
\<close>

definition simpleForest' :: Heap where
  "simpleForest' =
     \<lparr>namespaceAt = (\<lambda>r.
        if r = 0 then \<lparr>ns_name = ''root'', parent = None, children = [1, 2], forbidden = [],
                       members = [0]\<rparr>
        else if r = 1 then \<lparr>ns_name = ''nested'', parent = None, children = [], forbidden = [0, 0],
                             members = [1]\<rparr>
        else if r = 2 then \<lparr>ns_name = ''vacant'', parent = None, children = [], forbidden = [0],
                             members = []\<rparr>
        else emptyNamespace),
      namedAt = namedAt simpleForest,
      otherName = noOtherName\<rparr>"

text \<open>One namespace with two \<^verbatim>\<open>SimpleNamed\<close> that both propose \<^verbatim>\<open>Foo\<close>.\<close>

definition twoSimple :: Heap where
  "twoSimple =
     \<lparr>namespaceAt = (\<lambda>r.
        if r = 0 then \<lparr>ns_name = ''global'', parent = None, children = [], forbidden = [],
                       members = [0, 1]\<rparr>
        else emptyNamespace),
      namedAt = (\<lambda>r. SimpleNamed 0 ''Class'' CountingNamingFunction ''Foo''),
      otherName = noOtherName\<rparr>"

text \<open>One namespace with one \<^verbatim>\<open>FixedNamed\<close> called \<^verbatim>\<open>Type\<close>.\<close>

definition oneFixed :: Heap where
  "oneFixed =
     \<lparr>namespaceAt = (\<lambda>r.
        if r = 0 then \<lparr>ns_name = ''global'', parent = None, children = [], forbidden = [],
                       members = [0]\<rparr>
        else emptyNamespace),
      namedAt = (\<lambda>r. FixedNamed 0 ''Type''),
      otherName = noOtherName\<rparr>"



section \<open>Properties\<close>

subsection \<open>Decimal digits\<close>

lemma showNat_small: "n < 10 \<Longrightarrow> showNat n = [''0123456789'' ! n]"
  by (subst showNat.simps) simp

lemma showNat_big:
  "\<not> n < 10 \<Longrightarrow> showNat n = showNat (n div 10) @ [''0123456789'' ! (n mod 10)]"
  by (subst showNat.simps) simp

lemma showNat_nonempty: "showNat n \<noteq> []"
  by (cases "n < 10") (simp_all add: showNat_small showNat_big)

lemma digit_table:
  "list_all (\<lambda>a. list_all (\<lambda>b. ''0123456789'' ! a \<noteq> ''0123456789'' ! b \<or> a = b) [0..<10])
     [0..<(10::nat)]"
  by code_simp

lemma digit_inj:
  assumes "a < 10" "b < 10" "''0123456789'' ! a = ''0123456789'' ! b"
  shows "a = (b::nat)"
  using digit_table assms by (auto simp: list_all_iff)

lemma showNat_inj: "showNat m = showNat n \<Longrightarrow> m = n"
proof (induction m arbitrary: n rule: showNat.induct)
  case (1 m)
  show ?case
  proof (cases "m < 10")
    case small: True
    show ?thesis
    proof (cases "n < 10")
      case True
      with small "1.prems" show ?thesis
        by (simp add: showNat_small digit_inj)
    next
      case False
      with small "1.prems" showNat_nonempty [of "n div 10"] show ?thesis
        by (simp add: showNat_small showNat_big)
    qed
  next
    case big: False
    show ?thesis
    proof (cases "n < 10")
      case True
      with big "1.prems" showNat_nonempty [of "m div 10"] show ?thesis
        by (simp add: showNat_small showNat_big)
    next
      case False
      from big False "1.prems"
      have "showNat (m div 10) = showNat (n div 10)"
        and d: "''0123456789'' ! (m mod 10) = ''0123456789'' ! (n mod 10)"
        by (simp_all add: showNat_big)
      then have "m div 10 = n div 10"
        using "1.IH" big by blast
      moreover have "m mod 10 = n mod 10"
        using d by (intro digit_inj) simp_all
      ultimately show ?thesis
        by (metis div_mult_mod_eq)
    qed
  qed
qed

subsection \<open>The counting loop\<close>

lemma candidateNames_many:
  "n \<noteq> 1 \<Longrightarrow> candidateNames p u n = map (\<lambda>i. p @ u @ showNat i) [0..<n]"
  unfolding candidateNames_def
  by (simp add: toOrderedSet_distinct distinct_map inj_on_def showNat_inj)

lemma candidateNames_one: "candidateNames p u (Suc 0) = [p @ u]"
  by (simp add: candidateNames_def toOrderedSet_def)

lemma candidateNames_distinct: "distinct (candidateNames p u n)"
  by (cases "n = 1")
    (simp_all add: candidateNames_one candidateNames_many distinct_map inj_on_def showNat_inj)

lemma candidateNames_size: "length (candidateNames p u n) = n"
  by (cases "n = 1") (simp_all add: candidateNames_one candidateNames_many)

lemma countingLoop_least:
  "\<exists>k. countingLoop p F n u = candidateNames p (u @ replicate k CHR ''_'') n
     \<and> \<not> list_ex (\<lambda>x. x |\<in>| F) (candidateNames p (u @ replicate k CHR ''_'') n)
     \<and> (\<forall>j<k. list_ex (\<lambda>x. x |\<in>| F) (candidateNames p (u @ replicate j CHR ''_'') n))"
proof (induction p F n u rule: countingLoop.induct)
  case (1 p F n u)
  show ?case
  proof (cases "list_ex (\<lambda>x. x |\<in>| F) (candidateNames p u n)")
    case False
    then have "countingLoop p F n u = candidateNames p u n"
      by (subst countingLoop.simps) simp
    with False show ?thesis
      by (intro exI [of _ 0]) simp
  next
    case True
    then have step: "countingLoop p F n u = countingLoop p F n (u @ ''_'')"
      by (subst countingLoop.simps) simp
    from "1.IH" [OF refl True] obtain k where
      k: "countingLoop p F n (u @ ''_'') = candidateNames p ((u @ ''_'') @ replicate k CHR ''_'') n"
         "\<not> list_ex (\<lambda>x. x |\<in>| F) (candidateNames p ((u @ ''_'') @ replicate k CHR ''_'') n)"
         "\<forall>j<k. list_ex (\<lambda>x. x |\<in>| F) (candidateNames p ((u @ ''_'') @ replicate j CHR ''_'') n)"
      by blast
    have shift: "(u @ ''_'') @ replicate j CHR ''_'' = u @ replicate (Suc j) CHR ''_''" for j
      by simp
    have "\<forall>j<Suc k. list_ex (\<lambda>x. x |\<in>| F) (candidateNames p (u @ replicate j CHR ''_'') n)"
    proof (intro allI impI)
      fix j assume "j < Suc k"
      show "list_ex (\<lambda>x. x |\<in>| F) (candidateNames p (u @ replicate j CHR ''_'') n)"
      proof (cases j)
        case 0
        with True show ?thesis by simp
      next
        case (Suc i)
        with \<open>j < Suc k\<close> k(3)
        have "list_ex (\<lambda>x. x |\<in>| F) (candidateNames p ((u @ ''_'') @ replicate i CHR ''_'') n)"
          by simp
        with Suc show ?thesis by (simp only: shift)
      qed
    qed
    with step k(1,2) show ?thesis
      by (intro exI [of _ "Suc k"]) (simp only: shift, simp)
  qed
qed

subsection \<open>The naming context and the loop\<close>

lemma isConflicting_empty: "namedsForName ctx = Map.empty \<Longrightarrow> \<not> isConflicting h ctx named proposed"
  by (simp add: isConflicting_def)

lemma assign_namedsForName: "namedsForName (snd (assign h ctx named nm)) = namedsForName ctx"
  by (simp add: assign_def Let_def split: option.splits)

lemma assign_empty:
  "namedsForName ctx = Map.empty \<Longrightarrow>
   fst (assign h ctx named nm) = Some (if names ctx named \<noteq> None then NamedAssignedTwice else TypeError)"
  by (simp add: assign_def Let_def isConflicting_empty)

lemma readyNamespace_None: "readyNamespace h ctx = None"
  unfolding readyNamespace_def unfinishedNamespaces_def find_None_iff
  by (auto simp: isFullyNamed_def isReadyToBeNamed_def list_all_iff list_ex_iff)

lemma nameLoop_returns: "nameLoop h ctx = Some (Inr (names ctx))"
  by (subst nameLoop.simps) (simp add: readyNamespace_None)

lemma assignFixed_fresh:
  assumes "namedsForName ctx = Map.empty" and "names ctx = Map.empty"
    and "list_all (\<lambda>n. isFixed (namedAt h n)) fixed"
  shows "assignFixed h ctx fixed = (if fixed = [] then Inr ctx else Inl TypeError)"
proof (cases fixed)
  case Nil
  then show ?thesis by simp
next
  case (Cons n rest)
  from assms(3) Cons have "isFixed (namedAt h n)" by simp
  then obtain ns nm where "namedAt h n = FixedNamed ns nm"
    by (cases "namedAt h n") (simp_all add: isFixed_def)
  moreover have "fst (assign h ctx n nm) = Some TypeError"
    using assign_empty [OF assms(1)] assms(2) by simp
  then obtain ctx' where "assign h ctx n nm = (Some TypeError, ctx')"
    by (cases "assign h ctx n nm") simp
  ultimately show ?thesis
    using Cons by simp
qed

lemma fixedNames_all_fixed: "list_all (\<lambda>n. isFixed (namedAt h n)) (fixedNames h ctx)"
  by (auto simp: fixedNames_def list_all_iff set_toOrderedSet)

lemma assignNames_cases:
  "assignNames h roots =
     (case allNamespacesRecursively h roots of
        None \<Rightarrow> None
      | Some all \<Rightarrow>
          if fixedNames h \<lparr>names = Map.empty, namedsForName = Map.empty, namespaces = all\<rparr> = []
          then Some (Inr Map.empty) else Some (Inl TypeError))"
  by (simp add: assignNames_def newNamingContext_def assignFixed_fresh fixedNames_all_fixed
      nameLoop_returns split: option.splits)

lemma mapM_Some_cong:
  "(\<And>x y. x \<in> set xs \<Longrightarrow> f x = Some y \<Longrightarrow> g x = Some y) \<Longrightarrow> mapM f xs = Some ys \<Longrightarrow> mapM g xs = Some ys"
proof (induction xs arbitrary: ys)
  case Nil
  then show ?case by simp
next
  case (Cons x xs)
  from Cons.prems(2) obtain y zs where y: "f x = Some y" and zs: "mapM f xs = Some zs"
    and ys: "ys = y # zs"
    by (auto simp: bind_eq_Some_conv)
  have "g x = Some y" using Cons.prems(1) y by simp
  moreover have "mapM g xs = Some zs"
    using Cons.IH [OF _ zs] Cons.prems(1) by simp
  ultimately show ?case using ys by simp
qed

lemma allNamespacesRecursively_children_Some:
  assumes major: "allNamespacesRecursively h nss = Some y"
    and same: "\<And>r. children (namespaceAt h r) = children (namespaceAt h' r)"
  shows "allNamespacesRecursively h' nss = Some y"
proof -
  let ?P = "\<lambda>a b c. (\<forall>r. children (namespaceAt a r) = children (namespaceAt h' r))
                    \<longrightarrow> allNamespacesRecursively h' b = Some c"
  have "?P h nss y"
  proof (rule allNamespacesRecursively.raw_induct [where P = ?P, OF _ major])
    fix rec a b c
    assume IH: "\<And>a b c. rec a b = Some c \<Longrightarrow> ?P a b c"
      and step: "Option.bind (mapM (\<lambda>ns. rec a (children (namespaceAt a ns))) b)
                   (\<lambda>subs. Some (toOrderedSet (b @ concat subs))) = Some c"
    show "?P a b c"
    proof
      assume eq: "\<forall>r. children (namespaceAt a r) = children (namespaceAt h' r)"
      from step obtain subs where
        subs: "mapM (\<lambda>ns. rec a (children (namespaceAt a ns))) b = Some subs"
        and c: "c = toOrderedSet (b @ concat subs)"
        by (auto simp: bind_eq_Some_conv)
      have "mapM (\<lambda>ns. allNamespacesRecursively h' (children (namespaceAt h' ns))) b = Some subs"
        using subs
      proof (rule mapM_Some_cong [rotated])
        fix x z
        assume "rec a (children (namespaceAt a x)) = Some z"
        from IH [OF this] eq
        show "allNamespacesRecursively h' (children (namespaceAt h' x)) = Some z"
          by simp
      qed
      then show "allNamespacesRecursively h' b = Some c"
        using c by (subst allNamespacesRecursively.simps) simp
    qed
  qed
  with same show ?thesis by simp
qed

lemma allNamespacesRecursively_children_cong:
  assumes "\<And>r. children (namespaceAt h r) = children (namespaceAt h' r)"
  shows "allNamespacesRecursively h nss = allNamespacesRecursively h' nss"
proof (cases "allNamespacesRecursively h nss")
  case (Some y)
  then show ?thesis
    using allNamespacesRecursively_children_Some [of h nss y h'] assms by simp
next
  case None
  show ?thesis
  proof (cases "allNamespacesRecursively h' nss")
    case None
    with \<open>allNamespacesRecursively h nss = None\<close> show ?thesis by simp
  next
    case (Some y)
    then have "allNamespacesRecursively h nss = Some y"
      using allNamespacesRecursively_children_Some [of h' nss y h] assms by simp
    with None show ?thesis by simp
  qed
qed

lemma assignNames_outcome:
  "assignNames h rootNamespaces = Some r \<Longrightarrow> r = Inl TypeError \<or> r = Inr Map.empty"
  by (auto simp: assignNames_cases split: option.splits if_splits)

lemma set_fixedNames:
  "set (fixedNames h ctx) =
     {n. \<exists>ns. ns \<in> set (namespaces ctx) \<and> n \<in> set (members (namespaceAt h ns)) \<and> isFixed (namedAt h n)}"
  by (auto simp: fixedNames_def set_toOrderedSet)

lemma assignCalls_namedsForName:
  "namedsForName (assignCalls h ctx calls) = namedsForName ctx"
  by (induction h ctx calls rule: assignCalls.induct) (simp_all add: assign_namedsForName)

lemma newNamingContext_namedsForName:
  "newNamingContext h rootNamespaces = Some ctx \<Longrightarrow> namedsForName ctx = Map.empty"
  by (auto simp: newNamingContext_def)

subsection \<open>The example forests\<close>

lemma allNamespacesRecursively_Nil: "allNamespacesRecursively h [] = Some []"
  by (subst allNamespacesRecursively.simps) (simp add: toOrderedSet_def)

lemma allNamespacesRecursively_single:
  "allNamespacesRecursively h (children (namespaceAt h ns)) = Some sub \<Longrightarrow>
   allNamespacesRecursively h [ns] = Some (toOrderedSet (ns # sub))"
  by (subst allNamespacesRecursively.simps) simp

lemma allNamespacesRecursively_pair:
  "allNamespacesRecursively h (children (namespaceAt h a)) = Some sub_a \<Longrightarrow>
   allNamespacesRecursively h (children (namespaceAt h b)) = Some sub_b \<Longrightarrow>
   allNamespacesRecursively h [a, b] = Some (toOrderedSet ([a, b] @ sub_a @ sub_b))"
  by (subst allNamespacesRecursively.simps) simp

lemma simpleForest_simps [simp]:
  "children (namespaceAt simpleForest 0) = [1, 2]"
  "children (namespaceAt simpleForest (Suc 0)) = []"
  "children (namespaceAt simpleForest 2) = []"
  "members (namespaceAt simpleForest 0) = [0]"
  "members (namespaceAt simpleForest (Suc 0)) = [Suc 0]"
  "members (namespaceAt simpleForest 2) = []"
  "forbidden (namespaceAt simpleForest 0) = []"
  "forbidden (namespaceAt simpleForest 2) = [0]"
  "namedAt simpleForest 0 = SimpleNamed 0 ''TopLevel'' CountingNamingFunction ''Foo''"
  "namedAt simpleForest (Suc 0) = DependencyNamed 1 ''Property'' CountingNamingFunction [0] appendValue"
  by (simp_all add: simpleForest_def)

lemma simpleForest_namespaces: "allNamespacesRecursively simpleForest [0] = Some [0, 1, 2]"
proof -
  have "allNamespacesRecursively simpleForest [Suc 0, 2] = Some (toOrderedSet ([Suc 0, 2] @ [] @ []))"
    by (rule allNamespacesRecursively_pair) (simp_all add: allNamespacesRecursively_Nil)
  then have "allNamespacesRecursively simpleForest [0] = Some (toOrderedSet [0, Suc 0, 2])"
    by (intro allNamespacesRecursively_single) (simp add: toOrderedSet_def)
  then show ?thesis
    by (simp add: toOrderedSet_def)
qed

lemma simpleForest_result: "assignNames simpleForest [0] = Some (Inr Map.empty)"
  by (simp add: assignNames_cases simpleForest_namespaces fixedNames_def isFixed_def toOrderedSet_def)

lemma twoSimple_context:
  "newNamingContext twoSimple [0]
     = Some \<lparr>names = Map.empty, namedsForName = Map.empty, namespaces = [0]\<rparr>"
proof -
  have "allNamespacesRecursively twoSimple [0] = Some (toOrderedSet [0])"
    by (rule allNamespacesRecursively_single)
      (simp add: twoSimple_def allNamespacesRecursively_Nil)
  then show ?thesis
    by (simp add: newNamingContext_def toOrderedSet_def)
qed

lemma oneFixed_simps [simp]:
  "children (namespaceAt oneFixed 0) = []"
  "members (namespaceAt oneFixed 0) = [0]"
  "namedAt oneFixed 0 = FixedNamed 0 ''Type''"
  by (simp_all add: oneFixed_def)

lemma oneFixed_namespaces: "allNamespacesRecursively oneFixed [0] = Some [0]"
proof -
  have "allNamespacesRecursively oneFixed [0] = Some (toOrderedSet [0])"
    by (rule allNamespacesRecursively_single) (simp add: allNamespacesRecursively_Nil)
  then show ?thesis
    by (simp add: toOrderedSet_def)
qed

section \<open>The claims\<close>

text \<open>
  C1 (totality on acyclic input) asks that every member of every reachable namespace gets
  a name. The forest \<open>simpleForest\<close> has no dependency cycle: its root holds one
  \<^verbatim>\<open>SimpleNamed\<close>, which has no dependencies, and the one \<^verbatim>\<open>DependencyNamed\<close> depends
  on it. \<^verbatim>\<open>assignNames\<close> returns the empty map for it, so neither member, each of a
  reachable namespace, has a name.
\<close>

theorem assignNames_leaves_simple_unnamed:
  "assignNames simpleForest [0] = Some (Inr Map.empty)
   \<and> allNamespacesRecursively simpleForest [0] = Some [0, 1, 2]
   \<and> members (namespaceAt simpleForest 0) = [0]
   \<and> dependencies (namedAt simpleForest 0) = []
   \<and> members (namespaceAt simpleForest 1) = [1]
   \<and> dependencies (namedAt simpleForest 1) = [0]"
  by (simp add: simpleForest_result simpleForest_namespaces)


text \<open>
  C3: whenever \<^verbatim>\<open>assignNames\<close> returns a map, the keys of the map are exactly the fixed
  members of the namespaces reachable from the roots, and no named that is not fixed has
  a name in it.
\<close>

theorem assignNames_names_only_fixed:
  assumes "assignNames h rootNamespaces = Some (Inr result)"
  shows "\<exists>all. allNamespacesRecursively h rootNamespaces = Some all
           \<and> dom result = {n. \<exists>ns. ns \<in> set all \<and> n \<in> set (members (namespaceAt h ns))
                                    \<and> isFixed (namedAt h n)}
           \<and> (\<forall>n. isFixed (namedAt h n) \<or> result n = None)"
proof -
  from assms obtain all where all: "allNamespacesRecursively h rootNamespaces = Some all"
    by (auto simp: assignNames_cases split: option.splits)
  let ?ctx = "\<lparr>names = Map.empty, namedsForName = Map.empty, namespaces = all\<rparr>"
  from assms all have none: "fixedNames h ?ctx = []" and empty: "result = Map.empty"
    by (auto simp: assignNames_cases split: if_splits)
  from none have "set (fixedNames h ?ctx) = {}"
    by simp
  then have "{n. \<exists>ns. ns \<in> set all \<and> n \<in> set (members (namespaceAt h ns)) \<and> isFixed (namedAt h n)} = {}"
    unfolding set_fixedNames by simp
  with all empty show ?thesis
    by simp
qed

theorem assignNames_names_only_fixed_witness:
  "assignNames simpleForest [0] = Some (Inr Map.empty)
   \<and> (\<exists>all. allNamespacesRecursively simpleForest [0] = Some all
         \<and> dom (Map.empty :: NamedRef \<rightharpoonup> string)
             = {n. \<exists>ns. ns \<in> set all \<and> n \<in> set (members (namespaceAt simpleForest ns))
                         \<and> isFixed (namedAt simpleForest n)})"
  using assignNames_names_only_fixed [OF simpleForest_result] simpleForest_result
  by blast

text \<open>
  C5: in a context that the constructor made, \<^verbatim>\<open>namedsForName\<close> is the empty map after
  any sequence of calls of \<^verbatim>\<open>assign\<close>; so \<^verbatim>\<open>isConflicting\<close> is false for every named
  and every proposed string, and no call of \<^verbatim>\<open>assign\<close> throws
  \<^verbatim>\<open>Assigned name conflicts\<close>.
\<close>

theorem namedsForName_stays_empty:
  assumes "newNamingContext h rootNamespaces = Some ctx"
  shows "namedsForName (assignCalls h ctx calls) = Map.empty
       \<and> \<not> isConflicting h (assignCalls h ctx calls) named proposed
       \<and> fst (assign h (assignCalls h ctx calls) named proposed) \<noteq> Some AssignedNameConflicts"
proof -
  have empty: "namedsForName (assignCalls h ctx calls) = Map.empty"
    using assms by (simp add: assignCalls_namedsForName newNamingContext_namedsForName)
  then show ?thesis
    by (simp add: isConflicting_empty assign_empty)
qed

theorem namedsForName_stays_empty_witness:
  "newNamingContext twoSimple [0]
     = Some \<lparr>names = Map.empty, namedsForName = Map.empty, namespaces = [0]\<rparr>
   \<and> names (assignCalls twoSimple \<lparr>names = Map.empty, namedsForName = Map.empty, namespaces = [0]\<rparr>
              [(0, ''Foo''), (1, ''Foo'')]) 1 = Some ''Foo''
   \<and> namedsForName (assignCalls twoSimple \<lparr>names = Map.empty, namedsForName = Map.empty, namespaces = [0]\<rparr>
                     [(0, ''Foo''), (1, ''Foo'')]) = Map.empty
   \<and> \<not> isConflicting twoSimple
         (assignCalls twoSimple \<lparr>names = Map.empty, namedsForName = Map.empty, namespaces = [0]\<rparr>
            [(0, ''Foo''), (1, ''Foo'')]) 1 ''Foo''"
proof -
  have "names (assignCalls twoSimple \<lparr>names = Map.empty, namedsForName = Map.empty, namespaces = [0]\<rparr>
              [(0, ''Foo''), (1, ''Foo'')]) 1 = Some ''Foo''"
    by (simp add: assign_def isConflicting_def)
  with namedsForName_stays_empty [OF twoSimple_context, of "[(0, ''Foo''), (1, ''Foo'')]" 1 "''Foo''"]
    twoSimple_context
  show ?thesis
    by simp
qed

text \<open>
  C6 (AssignmentConflict) asks that \<^verbatim>\<open>assign\<close> throws \<^verbatim>\<open>Assigned name conflicts\<close> when
  the name is held by another named of the same namespace. In \<open>twoSimple\<close> the first call
  records \<^verbatim>\<open>Foo\<close> for the named 0 and throws a \<open>TypeError\<close>; the call for the named 1 of the
  same namespace, with the same name, finds no conflict, records \<^verbatim>\<open>Foo\<close> a second time
  and throws a \<open>TypeError\<close> as well.
\<close>

theorem assign_misses_conflict:
  "fst (assign twoSimple \<lparr>names = Map.empty, namedsForName = Map.empty, namespaces = [0]\<rparr> 0 ''Foo'')
     = Some TypeError
   \<and> snd (assign twoSimple \<lparr>names = Map.empty, namedsForName = Map.empty, namespaces = [0]\<rparr> 0 ''Foo'')
     = \<lparr>names = [0 \<mapsto> ''Foo''], namedsForName = Map.empty, namespaces = [0]\<rparr>
   \<and> namespace (namedAt twoSimple 1) = namespace (namedAt twoSimple 0)
   \<and> fst (assign twoSimple \<lparr>names = [0 \<mapsto> ''Foo''], namedsForName = Map.empty, namespaces = [0]\<rparr> 1 ''Foo'')
     = Some TypeError
   \<and> names (snd (assign twoSimple \<lparr>names = [0 \<mapsto> ''Foo''], namedsForName = Map.empty, namespaces = [0]\<rparr>
                   1 ''Foo'')) = [0 \<mapsto> ''Foo'', 1 \<mapsto> ''Foo'']"
  by (simp add: assign_def isConflicting_def twoSimple_def)

text \<open>
  C7 (counting strategy): for a count of at least one, \<^verbatim>\<open>CountingNamingFunction.name\<close>
  returns that many pairwise distinct strings, none of them forbidden. They are the
  proposed name followed by \<open>k\<close> underscores when the count is one, and the proposed
  name, \<open>k\<close> underscores and the numbers from zero below the count otherwise, where \<open>k\<close> is
  the least number of underscores for which none of these strings is forbidden.
\<close>

theorem CountingNamingFunction_name_correct:
  assumes "1 \<le> numberOfNames"
  shows "\<exists>k nms.
           CountingNamingFunction_name proposedName forbidden_names numberOfNames = Inr nms
         \<and> length nms = numberOfNames
         \<and> distinct nms
         \<and> fset_of_list nms |\<inter>| forbidden_names = {||}
         \<and> nms = (if numberOfNames = 1 then [proposedName @ replicate k CHR ''_'']
                  else map (\<lambda>i. proposedName @ replicate k CHR ''_'' @ showNat i) [0..<numberOfNames])
         \<and> (\<forall>j<k. fset_of_list
                      (if numberOfNames = 1 then [proposedName @ replicate j CHR ''_'']
                       else map (\<lambda>i. proposedName @ replicate j CHR ''_'' @ showNat i) [0..<numberOfNames])
                    |\<inter>| forbidden_names \<noteq> {||})"
proof -
  let ?batch = "\<lambda>j. if numberOfNames = 1 then [proposedName @ replicate j CHR ''_'']
                   else map (\<lambda>i. proposedName @ replicate j CHR ''_'' @ showNat i) [0..<numberOfNames]"
  have batch: "candidateNames proposedName ([] @ replicate j CHR ''_'') numberOfNames = ?batch j" for j
    by (cases "numberOfNames = 1") (simp_all add: candidateNames_one candidateNames_many)
  have hit: "list_ex (\<lambda>x. x |\<in>| forbidden_names) xs \<longleftrightarrow> fset_of_list xs |\<inter>| forbidden_names \<noteq> {||}"
    for xs
    by (auto simp: list_ex_iff fset_of_list_elem)
  from countingLoop_least [of proposedName forbidden_names numberOfNames "[]"]
  obtain k where
    k: "countingLoop proposedName forbidden_names numberOfNames [] = ?batch k"
       "\<not> list_ex (\<lambda>x. x |\<in>| forbidden_names) (?batch k)"
       "\<forall>j<k. list_ex (\<lambda>x. x |\<in>| forbidden_names) (?batch j)"
    unfolding batch by blast
  have "CountingNamingFunction_name proposedName forbidden_names numberOfNames = Inr (?batch k)"
    using assms k(1) by (simp add: CountingNamingFunction_name_def)
  moreover have "length (?batch k) = numberOfNames"
    by simp
  moreover have "distinct (?batch k)"
    using candidateNames_distinct [of proposedName "[] @ replicate k CHR ''_''" numberOfNames]
    unfolding batch .
  moreover have "fset_of_list (?batch k) |\<inter>| forbidden_names = {||}"
    using k(2) unfolding hit by blast
  moreover have "\<forall>j<k. fset_of_list (?batch j) |\<inter>| forbidden_names \<noteq> {||}"
    using k(3) unfolding hit .
  ultimately show ?thesis
    by blast
qed

theorem CountingNamingFunction_name_correct_witness:
  "CountingNamingFunction_name ''Type'' {|''Type'', ''Type_''|} 1 = Inr [''Type__'']
   \<and> CountingNamingFunction_name ''Foo'' {|''Foo1''|} 2 = Inr [''Foo_0'', ''Foo_1'']"
proof -
  have one: "(1::nat) \<le> 1" and two: "(1::nat) \<le> 2"
    by simp_all
  have a: "CountingNamingFunction_name ''Type'' {|''Type'', ''Type_''|} 1 = Inr [''Type__'']"
    by code_simp
  have b: "CountingNamingFunction_name ''Foo'' {|''Foo1''|} 2 = Inr [''Foo_0'', ''Foo_1'']"
    by code_simp
  from CountingNamingFunction_name_correct [OF one, of "''Type''" "{|''Type'', ''Type_''|}"]
    CountingNamingFunction_name_correct [OF two, of "''Foo''" "{|''Foo1''|}"]
  show ?thesis
    using a b by simp
qed




text \<open>
  C9 (fixed fidelity) asks that every fixed named gets its literal name. In \<open>oneFixed\<close>
  the one member of the root is fixed and proposes its literal \<^verbatim>\<open>Type\<close>, whatever the
  names it is given; \<^verbatim>\<open>assignNames\<close> throws a \<open>TypeError\<close> and returns no map.
\<close>

theorem assignNames_fixed_throws:
  "isFixed (namedAt oneFixed 0)
   \<and> members (namespaceAt oneFixed 0) = [0]
   \<and> proposeName (namedAt oneFixed 0) None = Inr ''Type''
   \<and> assignNames oneFixed [0] = Some (Inl TypeError)"
  by (simp add: assignNames_cases oneFixed_namespaces fixedNames_def toOrderedSet_def isFixed_def)

text \<open>
  C10 (determinism): two runs on stores with the same children and members of every
  namespace, in the same order, the same forbidden namespaces, the same nameds and the same
  naming functions have the same outcome. The display names, the parent links and the
  iteration order of the forbidden sets make no difference.
\<close>

theorem assignNames_deterministic:
  assumes "\<And>r. children (namespaceAt h r) = children (namespaceAt h' r)"
    and "\<And>r. members (namespaceAt h r) = members (namespaceAt h' r)"
    and "\<And>r. set (forbidden (namespaceAt h r)) = set (forbidden (namespaceAt h' r))"
    and "namedAt h = namedAt h'"
    and "otherName h = otherName h'"
  shows "assignNames h rootNamespaces = assignNames h' rootNamespaces"
proof -
  have "allNamespacesRecursively h rootNamespaces = allNamespacesRecursively h' rootNamespaces"
    using assms(1) by (rule allNamespacesRecursively_children_cong)
  moreover have "fixedNames h ctx = fixedNames h' ctx" for ctx
    using assms(2,4) by (simp add: fixedNames_def)
  ultimately show ?thesis
    by (simp add: assignNames_cases cong: option.case_cong)
qed

theorem assignNames_deterministic_witness:
  "assignNames simpleForest [0] = assignNames simpleForest' [0]
   \<and> assignNames simpleForest' [0] = Some (Inr Map.empty)"
proof -
  have "assignNames simpleForest [0] = assignNames simpleForest' [0]"
    by (rule assignNames_deterministic) (simp_all add: simpleForest_def simpleForest'_def)
  with simpleForest_result show ?thesis
    by simp
qed

end
